theory Spec2Isabelle
  imports Complex_Main "HOL-Library.Multiset"
begin

section \<open>JavaScript values\<close>

text \<open>
  Setting values are of type "mixed": any JavaScript value. Primitives are modelled by
  their content, objects and functions by their reference (identity). Numbers are the
  finite numbers and NaN; the two zeros are identified (no operation below tells them
  apart) and the infinities are left out (they behave like any non-zero number here).
\<close>

type_synonym ref = nat

datatype jsval =
    JUndefined
  | JNull
  | JBool bool
  | JNum rat
  | JNaN
  | JStr string
  | JObject ref
  | JFunction ref

text \<open>The \<open>typeof\<close> operator.\<close>

fun typeof :: "jsval \<Rightarrow> string" where
  "typeof JUndefined = ''undefined''"
| "typeof JNull = ''object''"
| "typeof (JBool b) = ''boolean''"
| "typeof (JNum r) = ''number''"
| "typeof JNaN = ''number''"
| "typeof (JStr s) = ''string''"
| "typeof (JObject r) = ''object''"
| "typeof (JFunction r) = ''function''"

text \<open>ToBoolean: the falsy values are undefined, null, false, 0, NaN and the empty string.\<close>

fun truthy :: "jsval \<Rightarrow> bool" where
  "truthy JUndefined = False"
| "truthy JNull = False"
| "truthy (JBool b) = b"
| "truthy (JNum r) = (r \<noteq> 0)"
| "truthy JNaN = False"
| "truthy (JStr s) = (s \<noteq> [])"
| "truthy (JObject r) = True"
| "truthy (JFunction r) = True"

text \<open>Strict equality \<open>===\<close>: same type and same value, except that NaN equals nothing.\<close>

fun strict_eq :: "jsval \<Rightarrow> jsval \<Rightarrow> bool" where
  "strict_eq JNaN b = False"
| "strict_eq a JNaN = False"
| "strict_eq a b = (a = b)"

text \<open>The idiom \<open>x || null\<close>.\<close>

definition or_null :: "jsval \<Rightarrow> jsval" where
  "or_null x = (if truthy x then x else JNull)"

section \<open>Setting (src/Setting.js)\<close>

text \<open>
  The fields of a Setting object. Callbacks receive the Setting itself as their first
  argument; they see its fields as they are at the moment of the call. They are pure
  functions that return what their documentation says (the validation callback a
  boolean), and the delegate and the sender are objects or null.
\<close>

record setting_fields =
  s_name :: string
  s_value :: jsval
  s_valid :: bool
  s_delegate :: "ref option"

text \<open>The random number generator is external; it is identified by its seed.\<close>

datatype random = Random nat

record setting = setting_fields +
  validateValueCallback :: "(setting_fields \<Rightarrow> jsval \<Rightarrow> bool) option"
  filterValueCallback :: "(setting_fields \<Rightarrow> jsval \<Rightarrow> jsval) option"
  randomizeValueCallback :: "(setting_fields \<Rightarrow> random \<Rightarrow> jsval) option"

text \<open>The constructor's \<open>spec\<close> argument; an absent \<open>spec.value\<close> reads as undefined.\<close>

record setting_spec =
  spec_value :: jsval
  spec_validateValue :: "(setting_fields \<Rightarrow> jsval \<Rightarrow> bool) option"
  spec_filterValue :: "(setting_fields \<Rightarrow> jsval \<Rightarrow> jsval) option"
  spec_randomizeValue :: "(setting_fields \<Rightarrow> random \<Rightarrow> jsval) option"

text \<open>The default \<open>spec = {}\<close>.\<close>

definition empty_spec :: setting_spec where
  "empty_spec = \<lparr>spec_value = JUndefined, spec_validateValue = None,
     spec_filterValue = None, spec_randomizeValue = None\<rparr>"

text \<open>A call of the delegate's method \<open>settingValueDidChange(setting, value)\<close>:
  the receiving delegate, the name of the Setting passed, and the value passed.\<close>

datatype event = SettingValueDidChange ref string jsval

datatype error = TypeError | Error string

definition this_fields :: "setting \<Rightarrow> setting_fields" where
  "this_fields this = \<lparr>s_name = s_name this, s_value = s_value this,
     s_valid = s_valid this, s_delegate = s_delegate this\<rparr>"

definition Setting :: "string \<Rightarrow> setting_spec \<Rightarrow> setting" where
  "Setting name spec =
     \<lparr>s_name = name,
      s_value = or_null (spec_value spec),
      s_valid = True,
      s_delegate = None,
      validateValueCallback = spec_validateValue spec,
      filterValueCallback = spec_filterValue spec,
      randomizeValueCallback = spec_randomizeValue spec\<rparr>"

definition getName :: "setting \<Rightarrow> string" where
  "getName this = s_name this"

definition getDelegate :: "setting \<Rightarrow> ref option" where
  "getDelegate this = s_delegate this"

definition hasDelegate :: "setting \<Rightarrow> bool" where
  "hasDelegate this = (s_delegate this \<noteq> None)"

definition setDelegate :: "setting \<Rightarrow> ref option \<Rightarrow> setting" where
  "setDelegate this delegate = this\<lparr>s_delegate := delegate\<rparr>"

definition isValid :: "setting \<Rightarrow> bool" where
  "isValid this = s_valid this"

definition getValue :: "setting \<Rightarrow> jsval" where
  "getValue this = s_value this"

definition validateValue :: "setting \<Rightarrow> jsval \<Rightarrow> bool" where
  "validateValue this rawValue =
     (case validateValueCallback this of
        Some callback \<Rightarrow> callback (this_fields this) rawValue
      | None \<Rightarrow> True)"

definition filterValue :: "setting \<Rightarrow> jsval \<Rightarrow> jsval" where
  "filterValue this rawValue =
     (case filterValueCallback this of
        Some callback \<Rightarrow> callback (this_fields this) rawValue
      | None \<Rightarrow> rawValue)"

text \<open>
  \<open>setValue(rawValue, sender = null)\<close> returns the updated Setting and the calls it made
  to the delegate. The validation callback runs before \<open>_valid\<close> is assigned, the filter
  callback after it.
\<close>

definition setValue :: "setting \<Rightarrow> jsval \<Rightarrow> ref option \<Rightarrow> setting \<times> event list" where
  "setValue this rawValue sender =
     (let this1 = this\<lparr>s_valid := validateValue this rawValue\<rparr> in
      if \<not> s_valid this1 then (this1\<lparr>s_value := rawValue\<rparr>, [])
      else
        let val = filterValue this1 rawValue in
        if \<not> strict_eq (s_value this1) val then
          (let this2 = this1\<lparr>s_value := val\<rparr> in
           if hasDelegate this2 \<and> getDelegate this2 \<noteq> sender then
             (case getDelegate this2 of
                Some d \<Rightarrow> (this2, [SettingValueDidChange d (s_name this2) val])
              | None \<Rightarrow> (this2, []))
           else (this2, []))
        else (this1, []))"

definition revalidateValue :: "setting \<Rightarrow> setting \<times> event list" where
  "revalidateValue this = setValue this (getValue this) None"

definition randomizeValue :: "setting \<Rightarrow> random \<Rightarrow> jsval" where
  "randomizeValue this rnd =
     (case randomizeValueCallback this of
        Some callback \<Rightarrow> callback (this_fields this) rnd
      | None \<Rightarrow> getValue this)"

text \<open>\<open>randomize(random = null)\<close>; \<open>fresh\<close> is the generator that \<open>new Random()\<close>
  gives when none is passed.\<close>

definition randomize :: "setting \<Rightarrow> random option \<Rightarrow> random \<Rightarrow> setting \<times> event list" where
  "randomize this rnd fresh =
     (let val = randomizeValue this (case rnd of Some r \<Rightarrow> r | None \<Rightarrow> fresh)
      in setValue this val None)"

text \<open>\<open>serializeValue()\<close> returns the value or throws; the Setting is returned beside
  the outcome, as the method leaves it.\<close>

definition serializeValue :: "setting \<Rightarrow> (error + jsval) \<times> setting" where
  "serializeValue this =
     (let val = getValue this in
      if typeof val \<noteq> ''boolean'' \<and> typeof val \<noteq> ''number'' \<and> typeof val \<noteq> ''string''
      then (Inl (Error (''Generic Settings can only serialize boolean, number and string ''
              @ ''values safely. Found value type '' @ typeof val @ ''.'')), this)
      else (Inr val, this))"

definition extractValue :: "setting \<Rightarrow> jsval \<Rightarrow> setting \<times> event list" where
  "extractValue this data = setValue this data None"

section \<open>Pipe (src/unnamed/part_000)\<close>

subsection \<open>Array operations\<close>

text \<open>
  \<open>Array.prototype.splice(start, deleteCount, ...items)\<close>, as the array is left by it:
  a negative \<open>start\<close> counts from the end and is clamped to 0, a \<open>start\<close> beyond the
  length is clamped to the length.
\<close>

definition splice_array :: "'a list \<Rightarrow> int \<Rightarrow> int \<Rightarrow> 'a list \<Rightarrow> 'a list" where
  "splice_array xs start deleteCount items =
     (let len = int (length xs);
          actualStart = (if start < 0 then max (len + start) 0 else min start len);
          actualDeleteCount = min (max deleteCount 0) (len - actualStart)
      in take (nat actualStart) xs @ items @ drop (nat (actualStart + actualDeleteCount)) xs)"

text \<open>\<open>Array.prototype.indexOf\<close>: the first position of the element, or -1.\<close>

fun indexOf :: "'a list \<Rightarrow> 'a \<Rightarrow> int" where
  "indexOf [] x = -1"
| "indexOf (y # ys) x =
     (if y = x then 0 else (let i = indexOf ys x in if i = -1 then -1 else i + 1))"

text \<open>\<open>Array.prototype.sort((a, b) => b - a)\<close>: numerically descending.\<close>

definition sort_descending :: "int list \<Rightarrow> int list" where
  "sort_descending xs = rev (sort xs)"

subsection \<open>External collaborators: Brick and the Pipe's view\<close>

text \<open>A Brick object, by identity; the view a Brick owns, by its Brick.\<close>

type_synonym brick = ref

datatype brickview = BrickView brick

text \<open>Modelled from the spec: \<open>brick.getView()\<close>, the visual representation that a
  Brick exposes (class Brick is not among the sources).\<close>

definition Brick_getView :: "brick \<Rightarrow> brickview" where
  "Brick_getView b = BrickView b"

text \<open>Modelled from the spec: the view surface (class PipeView is not among the sources).
  The spec gives its interface only: it is constructible with no arguments and takes the
  calls \<open>addSubview(view)\<close> and \<open>removeSubview(view)\<close>. A view object is therefore
  modelled by the calls it has received, in their order; what the view makes of them is
  not modelled.\<close>

datatype view_call = AddSubview brickview | RemoveSubview brickview

record pipeview =
  calls :: "view_call list"

text \<open>Modelled from the spec: \<open>new PipeView()\<close>, a view that has received no call.\<close>

definition PipeView :: pipeview where
  "PipeView = \<lparr>calls = []\<rparr>"

text \<open>Modelled from the spec: the call \<open>addSubview(view)\<close> on the view surface; the view
  is given the child, and nothing else.\<close>

definition addSubview :: "pipeview \<Rightarrow> brickview \<Rightarrow> pipeview" where
  "addSubview v c = v\<lparr>calls := calls v @ [AddSubview c]\<rparr>"

text \<open>Modelled from the spec: the call \<open>removeSubview(view)\<close> on the view surface.\<close>

definition removeSubview :: "pipeview \<Rightarrow> brickview \<Rightarrow> pipeview" where
  "removeSubview v c = v\<lparr>calls := calls v @ [RemoveSubview c]\<rparr>"

text \<open>Every object is truthy: the left operand of \<open>this.getView() && ...\<close>.\<close>

definition object_truthy :: "pipeview \<Rightarrow> bool" where
  "object_truthy v = True"

subsection \<open>The Pipe object\<close>

text \<open>
  The fields of a Pipe object (\<open>p_ref\<close> is its identity, \<open>None\<close> is null), together
  with the part of the heap its methods write: the back-reference of every Brick, which
  \<open>brick.setPipe(pipe)\<close> assigns.
\<close>

record pipe =
  p_ref :: ref
  p_bricks :: "brick list"
  p_title :: "string option"
  p_description :: "string option"
  p_view :: "pipeview option"
  brick_pipe :: "brick \<Rightarrow> ref option"

text \<open>\<open>new Pipe()\<close>, at a fresh reference, on a heap of Bricks.\<close>

definition Pipe :: "ref \<Rightarrow> (brick \<Rightarrow> ref option) \<Rightarrow> pipe" where
  "Pipe r heap = \<lparr>p_ref = r, p_bricks = [], p_title = None, p_description = None,
     p_view = None, brick_pipe = heap\<rparr>"

definition getBricks :: "pipe \<Rightarrow> brick list" where
  "getBricks this = p_bricks this"

text \<open>Modelled from the spec: \<open>brick.setPipe(pipe)\<close> sets the back-reference of the
  Brick to the Pipe given, or clears it when given null.\<close>

definition Brick_setPipe :: "pipe \<Rightarrow> brick \<Rightarrow> ref option \<Rightarrow> pipe" where
  "Brick_setPipe this b p = this\<lparr>brick_pipe := (brick_pipe this)(b := p)\<rparr>"

definition createView :: "pipe \<Rightarrow> pipeview" where
  "createView this = (let view = PipeView in view)"

text \<open>\<open>getView()\<close> returns the view and the Pipe, whose field it may have assigned.\<close>

definition getView :: "pipe \<Rightarrow> pipeview \<times> pipe" where
  "getView this =
     (case p_view this of
        None \<Rightarrow> (let v = createView this in (v, this\<lparr>p_view := Some v\<rparr>))
      | Some v \<Rightarrow> (v, this))"

text \<open>The body of the \<open>forEach\<close> of \<open>insertBrick\<close>, for one Brick.\<close>

definition insertBrick_each :: "pipe \<Rightarrow> brick \<Rightarrow> pipe" where
  "insertBrick_each this b =
     (let this1 = Brick_setPipe this b (Some (p_ref this));
          (v, this2) = getView this1
      in if object_truthy v
         then (let (v', this3) = getView this2
               in this3\<lparr>p_view := Some (addSubview v' (Brick_getView b))\<rparr>)
         else this2)"

definition insertBrick :: "pipe \<Rightarrow> int \<Rightarrow> brick list \<Rightarrow> pipe" where
  "insertBrick this index bs =
     foldl insertBrick_each (this\<lparr>p_bricks := splice_array (p_bricks this) index 0 bs\<rparr>) bs"

definition addBrick :: "pipe \<Rightarrow> brick list \<Rightarrow> pipe" where
  "addBrick this bs = insertBrick this (-1) bs"

text \<open>The arguments of \<open>removeBrick\<close>: Brick objects or indexes.\<close>

datatype element = ElemBrick brick | ElemIndex int

text \<open>
  The body of the \<open>forEach\<close> of \<open>removeBrick\<close>, for one index (indexes are integers):
  \<open>this._bricks[index]\<close> is undefined unless the index is a position of the array, and
  calling \<open>setPipe\<close> on undefined throws a TypeError. A throw ends the call; the Pipe
  as the throw leaves it is not returned.
\<close>

definition removeBrick_each :: "pipe \<Rightarrow> int \<Rightarrow> error + pipe" where
  "removeBrick_each this index =
     (if 0 \<le> index \<and> index < int (length (p_bricks this)) then
        (let b = p_bricks this ! nat index;
             this1 = Brick_setPipe this b None;
             this2 = this1\<lparr>p_bricks := splice_array (p_bricks this1) index 1 []\<rparr>;
             (v, this3) = getView this2
         in Inr (if object_truthy v
                 then (let (v', this4) = getView this3
                       in this4\<lparr>p_view := Some (removeSubview v' (Brick_getView b))\<rparr>)
                 else this3))
      else Inl TypeError)"

fun removeBrick_forEach :: "pipe \<Rightarrow> int list \<Rightarrow> error + pipe" where
  "removeBrick_forEach this [] = Inr this"
| "removeBrick_forEach this (index # rest) =
     (case removeBrick_each this index of
        Inl e \<Rightarrow> Inl e
      | Inr this' \<Rightarrow> removeBrick_forEach this' rest)"

text \<open>The indexes that \<open>removeBrick\<close> walks: mapped, filtered and sorted.\<close>

definition removeBrick_indexes :: "pipe \<Rightarrow> element list \<Rightarrow> int list" where
  "removeBrick_indexes this elements =
     sort_descending
       (filter (\<lambda>index. index \<noteq> -1)
          (map (\<lambda>brickOrIndex. case brickOrIndex of
                   ElemBrick b \<Rightarrow> indexOf (p_bricks this) b
                 | ElemIndex i \<Rightarrow> i) elements))"

definition removeBrick :: "pipe \<Rightarrow> element list \<Rightarrow> error + pipe" where
  "removeBrick this elements = removeBrick_forEach this (removeBrick_indexes this elements)"

definition getTitle :: "pipe \<Rightarrow> string option" where
  "getTitle this = p_title this"

definition setTitle :: "pipe \<Rightarrow> string option \<Rightarrow> pipe" where
  "setTitle this title = this\<lparr>p_title := title\<rparr>"

definition getDescription :: "pipe \<Rightarrow> string option" where
  "getDescription this = p_description this"

definition setDescription :: "pipe \<Rightarrow> string option \<Rightarrow> pipe" where
  "setDescription this description = this\<lparr>p_description := description\<rparr>"

subsection \<open>Serialization\<close>

text \<open>
  Structured data of a Pipe; \<open>d_bricks\<close> is \<open>None\<close> when \<open>data.bricks\<close> is not an
  array. \<open>brick.serialize()\<close> and the static \<open>Brick.extract\<close> belong to class Brick,
  which is not among the sources: both are parameters, over any type of Brick data.
\<close>

record 'd pipe_data =
  d_title :: "string option"
  d_description :: "string option"
  d_bricks :: "'d list option"

definition serialize :: "(brick \<Rightarrow> 'd) \<Rightarrow> pipe \<Rightarrow> 'd pipe_data" where
  "serialize Brick_serialize this =
     \<lparr>d_title = getTitle this,
      d_description = getDescription this,
      d_bricks = Some (map Brick_serialize (p_bricks this))\<rparr>"

text \<open>\<open>data.bricks.map(brickData => Brick.extract(brickData))\<close>, which stops at the
  first Brick whose extraction throws.\<close>

fun extract_bricks :: "('d \<Rightarrow> error + brick) \<Rightarrow> 'd list \<Rightarrow> error + brick list" where
  "extract_bricks Brick_extract [] = Inr []"
| "extract_bricks Brick_extract (brickData # rest) =
     (case Brick_extract brickData of
        Inl e \<Rightarrow> Inl e
      | Inr b \<Rightarrow> (case extract_bricks Brick_extract rest of
                    Inl e \<Rightarrow> Inl e
                  | Inr bs \<Rightarrow> Inr (b # bs)))"

text \<open>
  Property lookup on a Pipe object, for the methods that take a list of Bricks. Class
  Pipe declares \<open>addBrick\<close>; it declares no member named \<open>add\<close>, neither does it
  inherit one, so that lookup gives undefined.
\<close>

definition Pipe_method :: "string \<Rightarrow> (pipe \<Rightarrow> brick list \<Rightarrow> pipe) option" where
  "Pipe_method name = (if name = ''addBrick'' then Some addBrick else None)"

text \<open>
  The static \<open>Pipe.extract(data)\<close> (\<open>extract\<close> alone is a keyword of Isabelle); the new Pipe is made at reference \<open>r\<close> on the heap
  \<open>heap\<close>. \<open>pipe.add.apply(pipe, bricks)\<close> throws a TypeError when \<open>pipe.add\<close> is
  undefined.
\<close>

definition Pipe_extract ::
  "('d \<Rightarrow> error + brick) \<Rightarrow> ref \<Rightarrow> (brick \<Rightarrow> ref option) \<Rightarrow> 'd pipe_data \<Rightarrow> error + pipe" where
  "Pipe_extract Brick_extract r heap data =
     (case d_bricks data of
        None \<Rightarrow> Inl (Error (''Can'' @ [CHR 0x27] @ ''t extract bricks from structured data.''))
      | Some bricksData \<Rightarrow>
          (case extract_bricks Brick_extract bricksData of
             Inl e \<Rightarrow> Inl e
           | Inr bricks \<Rightarrow>
               (let pipe = Pipe r heap in
                case Pipe_method ''add'' of
                  None \<Rightarrow> Inl TypeError
                | Some add \<Rightarrow>
                    (let pipe1 = add pipe bricks;
                         pipe2 = setTitle pipe1 (d_title data);
                         pipe3 = setDescription pipe2 (d_description data)
                     in Inr pipe3))))"

section \<open>Vocabulary of the properties\<close>

subsection \<open>Sequences of calls on a Setting\<close>

text \<open>The calls that change a Setting, with their arguments.\<close>

datatype setting_op =
    SetValue jsval "ref option"
  | SetDelegate "ref option"
  | RevalidateValue
  | Randomize "random option" random
  | ExtractValue jsval

fun apply_op :: "setting \<Rightarrow> setting_op \<Rightarrow> setting \<times> event list" where
  "apply_op this (SetValue rawValue sender) = setValue this rawValue sender"
| "apply_op this (SetDelegate delegate) = (setDelegate this delegate, [])"
| "apply_op this RevalidateValue = revalidateValue this"
| "apply_op this (Randomize rnd fresh) = randomize this rnd fresh"
| "apply_op this (ExtractValue data) = extractValue this data"

text \<open>The raw value that a call hands to \<open>setValue\<close>, if it reaches \<open>setValue\<close>.\<close>

fun raw_input :: "setting \<Rightarrow> setting_op \<Rightarrow> jsval option" where
  "raw_input this (SetValue rawValue sender) = Some rawValue"
| "raw_input this (SetDelegate delegate) = None"
| "raw_input this RevalidateValue = Some (getValue this)"
| "raw_input this (Randomize rnd fresh) =
     Some (randomizeValue this (case rnd of Some r \<Rightarrow> r | None \<Rightarrow> fresh))"
| "raw_input this (ExtractValue data) = Some data"

text \<open>Running a sequence of calls, remembering the raw value that reached \<open>setValue\<close>
  last.\<close>

fun apply_ops :: "setting \<times> jsval option \<Rightarrow> setting_op list \<Rightarrow> setting \<times> jsval option" where
  "apply_ops (this, last_raw) [] = (this, last_raw)"
| "apply_ops (this, last_raw) (x # xs) =
     apply_ops (fst (apply_op this x),
                case raw_input this x of Some raw \<Rightarrow> Some raw | None \<Rightarrow> last_raw) xs"

subsection \<open>Sequences of calls on a Pipe\<close>

text \<open>The indexes that a \<open>removeBrick\<close> call walks are pairwise distinct positions of
  the brick sequence.\<close>

definition valid_positions :: "pipe \<Rightarrow> element list \<Rightarrow> bool" where
  "valid_positions this elements =
     (distinct (removeBrick_indexes this elements) \<and>
      list_all (\<lambda>index. 0 \<le> index \<and> index < int (length (p_bricks this)))
        (removeBrick_indexes this elements))"










section \<open>Lemmas about Setting\<close>

lemma setValue_invalid:
  "\<not> validateValue s raw \<Longrightarrow> setValue s raw sender = (s\<lparr>s_valid := False, s_value := raw\<rparr>, [])"
  by (simp add: setValue_def Let_def)

lemma setValue_invalid_value:
  "\<not> s_valid (fst (setValue s raw sender)) \<Longrightarrow> s_value (fst (setValue s raw sender)) = raw"
  by (simp add: setValue_def Let_def split: option.splits if_splits)

lemma apply_op_invariant:
  assumes "\<not> s_valid s \<longrightarrow> last_raw = Some (s_value s)"
  shows "\<not> s_valid (fst (apply_op s x)) \<longrightarrow>
     (case raw_input s x of Some raw \<Rightarrow> Some raw | None \<Rightarrow> last_raw) = Some (s_value (fst (apply_op s x)))"
  using assms
  by (cases x) (auto simp: setValue_invalid_value revalidateValue_def randomize_def
      extractValue_def setDelegate_def Let_def)

lemma apply_ops_invariant:
  "(\<not> s_valid s \<longrightarrow> last_raw = Some (s_value s)) \<Longrightarrow> apply_ops (s, last_raw) xs = (s', last_raw') \<Longrightarrow>
   \<not> s_valid s' \<longrightarrow> last_raw' = Some (s_value s')"
proof (induction xs arbitrary: s last_raw)
  case Nil
  then show ?case by simp
next
  case (Cons x xs)
  show ?case
    using Cons.IH [OF apply_op_invariant [OF Cons.prems(1)]] Cons.prems(2) by simp
qed

lemma strict_eq_iff: "strict_eq a b \<longleftrightarrow> a = b \<and> a \<noteq> JNaN"
  by (cases a; cases b) auto

lemma setValue_unchanged:
  "validateValue s v \<Longrightarrow> strict_eq (s_value s) (filterValue (s\<lparr>s_valid := True\<rparr>) v) \<Longrightarrow>
   setValue s v sender = (s\<lparr>s_valid := True\<rparr>, [])"
  by (simp add: setValue_def Let_def)

lemma setValue_valid_value:
  "validateValue s v \<Longrightarrow>
   s_value (fst (setValue s v sender)) = filterValue (s\<lparr>s_valid := True\<rparr>) v"
  by (simp add: setValue_def Let_def strict_eq_iff split: option.splits)

lemma setValue_valid_fixes_flag:
  "validateValue s v \<Longrightarrow> (fst (setValue s v sender))\<lparr>s_valid := True\<rparr> = fst (setValue s v sender)"
  by (simp add: setValue_def Let_def split: option.splits)

lemma setValue_events_le_1: "length (snd (setValue s v sender)) \<le> 1"
  by (simp add: setValue_def Let_def split: option.splits)

section \<open>Lemmas about Pipe\<close>

lemma getView_fst: "fst (getView this) = (case p_view this of None \<Rightarrow> PipeView | Some v \<Rightarrow> v)"
  by (simp add: getView_def createView_def Let_def split: option.splits)

lemma insertBrick_each_eq:
  "insertBrick_each this b =
     this\<lparr>brick_pipe := (brick_pipe this)(b := Some (p_ref this)),
          p_view := Some (addSubview (fst (getView this)) (Brick_getView b))\<rparr>"
  by (cases "p_view this")
     (simp_all add: insertBrick_each_def Brick_setPipe_def getView_def createView_def
        object_truthy_def Let_def)

lemma removeBrick_each_eq:
  "0 \<le> index \<Longrightarrow> index < int (length (p_bricks this)) \<Longrightarrow>
   removeBrick_each this index =
     Inr (this\<lparr>brick_pipe := (brick_pipe this)(p_bricks this ! nat index := None),
               p_bricks := take (nat index) (p_bricks this) @ drop (Suc (nat index)) (p_bricks this),
               p_view := Some (removeSubview (fst (getView this))
                                 (Brick_getView (p_bricks this ! nat index)))\<rparr>)"
  by (cases "p_view this")
     (simp_all add: removeBrick_each_def Brick_setPipe_def getView_def createView_def
        object_truthy_def Let_def splice_array_def nat_add_distrib)

lemma removeBrick_each_invalid:
  "\<not> (0 \<le> index \<and> index < int (length (p_bricks this))) \<Longrightarrow>
   removeBrick_each this index = Inl TypeError"
  by (auto simp: removeBrick_each_def)

lemma foldl_insertBrick_each_bricks: "p_bricks (foldl insertBrick_each this bs) = p_bricks this"
  by (induction bs arbitrary: this) (simp_all add: insertBrick_each_eq)

lemma foldl_insertBrick_each_view:
  "p_view this = Some v \<Longrightarrow>
   p_view (foldl insertBrick_each this bs) =
     Some (v\<lparr>calls := calls v @ map (\<lambda>b. AddSubview (Brick_getView b)) bs\<rparr>)"
proof (induction bs arbitrary: this v)
  case Nil
  then show ?case by simp
next
  case (Cons b bs)
  have "p_view (insertBrick_each this b) = Some (v\<lparr>calls := calls v @ [AddSubview (Brick_getView b)]\<rparr>)"
    using Cons.prems by (simp add: insertBrick_each_eq getView_fst addSubview_def)
  from Cons.IH [OF this] show ?case by simp
qed

lemma insertBrick_bricks: "p_bricks (insertBrick this index bs) = splice_array (p_bricks this) index 0 bs"
  by (simp add: insertBrick_def foldl_insertBrick_each_bricks)


lemma insertBrick_view_fresh:
  "p_view this = None \<Longrightarrow> bs \<noteq> [] \<Longrightarrow>
   p_view (insertBrick this index bs) =
     Some \<lparr>calls = map (\<lambda>b. AddSubview (Brick_getView b)) bs\<rparr>"
proof -
  assume a: "p_view this = None" "bs \<noteq> []"
  then obtain b rest where bs: "bs = b # rest" by (cases bs) auto
  let ?t = "this\<lparr>p_bricks := splice_array (p_bricks this) index 0 bs\<rparr>"
  have "p_view (insertBrick_each ?t b) = Some \<lparr>calls = [AddSubview (Brick_getView b)]\<rparr>"
    using a by (simp add: insertBrick_each_eq getView_fst addSubview_def PipeView_def)
  from foldl_insertBrick_each_view [OF this, of rest]
  show ?thesis by (simp add: insertBrick_def bs)
qed

text \<open>The view is told the same whatever the index of the insertion.\<close>

lemma insertBrick_view_any_index:
  "p_view (insertBrick this i bs) = p_view (insertBrick this j bs)"
proof -
  have same: "p_view (foldl insertBrick_each t bs) = p_view (foldl insertBrick_each t' bs)"
    if "p_view t = p_view t'" for t t'
    using that
  proof (induction bs arbitrary: t t')
    case Nil
    then show ?case by simp
  next
    case (Cons b bs)
    have "p_view (insertBrick_each t b) = p_view (insertBrick_each t' b)"
      using Cons.prems by (simp add: insertBrick_each_eq getView_fst)
    from Cons.IH [OF this] show ?case by simp
  qed
  show ?thesis unfolding insertBrick_def by (rule same) simp
qed

lemma nths_cong_below:
  "(\<And>n. n < length xs \<Longrightarrow> (n \<in> A \<longleftrightarrow> n \<in> B)) \<Longrightarrow> nths xs A = nths xs B"
proof -
  assume h: "\<And>n. n < length xs \<Longrightarrow> (n \<in> A \<longleftrightarrow> n \<in> B)"
  have "filter (\<lambda>p. snd p \<in> A) (zip xs [0..<length xs]) = filter (\<lambda>p. snd p \<in> B) (zip xs [0..<length xs])"
    by (rule filter_cong) (auto dest!: set_zip_rightD simp: h)
  then show ?thesis by (simp add: nths_def)
qed

lemma nths_without_index:
  assumes k: "k < length xs" and kB: "k \<notin> B"
    and below: "\<And>n. n < k \<Longrightarrow> (n \<in> A \<longleftrightarrow> n \<in> B)"
    and above: "\<And>n. k \<le> n \<Longrightarrow> (n \<in> A \<longleftrightarrow> Suc n \<in> B)"
  shows "nths (take k xs @ drop (Suc k) xs) A = nths xs B"
proof -
  have len: "length (take k xs) = k" using k by simp
  have "nths xs B = nths (take k xs @ xs ! k # drop (Suc k) xs) B"
    using k by (simp add: id_take_nth_drop [symmetric])
  also have "\<dots> = nths (take k xs) B @ nths (drop (Suc k) xs) {j. Suc (j + k) \<in> B}"
    using kB k by (simp add: nths_append nths_Cons min_absorb2)
  finally have r: "nths xs B = nths (take k xs) B @ nths (drop (Suc k) xs) {j. Suc (j + k) \<in> B}" .
  have l: "nths (take k xs @ drop (Suc k) xs) A =
        nths (take k xs) A @ nths (drop (Suc k) xs) {j. j + k \<in> A}"
    using k by (simp add: nths_append min_absorb2)
  have 1: "nths (take k xs) A = nths (take k xs) B"
    by (rule nths_cong_below) (simp add: below)
  have 2: "{j. j + k \<in> A} = {j. Suc (j + k) \<in> B}"
    using above by auto
  show ?thesis by (simp add: l r 1 2)
qed

lemma removeBrick_forEach_descending:
  assumes "sorted_wrt (>) idxs"
    and "\<forall>i \<in> set idxs. 0 \<le> i \<and> i < int (length (p_bricks this))"
  shows "\<exists>this'. removeBrick_forEach this idxs = Inr this' \<and>
           p_bricks this' = nths (p_bricks this) {n. int n \<notin> set idxs}"
  using assms
proof (induction idxs arbitrary: this)
  case Nil
  then show ?case by (simp add: nths_all)
next
  case (Cons i rest)
  let ?xs = "p_bricks this"
  let ?k = "nat i"
  from Cons.prems have i: "0 \<le> i" "i < int (length ?xs)" by auto
  from removeBrick_each_eq [OF i] obtain this1 where
    step: "removeBrick_each this i = Inr this1" and
    b1: "p_bricks this1 = take ?k ?xs @ drop (Suc ?k) ?xs"
    by simp
  from Cons.prems have lt: "\<forall>j \<in> set rest. j < i" and srt: "sorted_wrt (>) rest" by auto
  have "\<forall>j \<in> set rest. 0 \<le> j \<and> j < int (length (p_bricks this1))"
    using Cons.prems(2) lt i by (auto simp: b1)
  from Cons.IH [OF srt this] obtain this' where
    r: "removeBrick_forEach this1 rest = Inr this'" and
    b': "p_bricks this' = nths (p_bricks this1) {n. int n \<notin> set rest}"
    by blast
  have "nths (take ?k ?xs @ drop (Suc ?k) ?xs) {n. int n \<notin> set rest}
        = nths ?xs {n. int n \<notin> set (i # rest)}"
  proof (rule nths_without_index)
    show "?k < length ?xs" using i by simp
    show "?k \<notin> {n. int n \<notin> set (i # rest)}" using i by simp
  next
    fix n assume "n < ?k"
    then show "n \<in> {n. int n \<notin> set rest} \<longleftrightarrow> n \<in> {n. int n \<notin> set (i # rest)}"
      using i by auto
  next
    fix n assume "?k \<le> n"
    then have "i \<le> int n" using i by simp
    then show "n \<in> {n. int n \<notin> set rest} \<longleftrightarrow> Suc n \<in> {n. int n \<notin> set (i # rest)}"
      using lt by auto
  qed
  then show ?case by (simp add: step r b' b1)
qed

lemma sort_descending_mset: "mset xs = mset ys \<Longrightarrow> sort_descending xs = sort_descending ys"
proof -
  assume "mset xs = mset ys"
  then have "sort xs = sort ys"
    by (intro properties_for_sort) simp_all
  then show ?thesis by (simp add: sort_descending_def)
qed

lemma removeBrick_indexes_mset:
  "mset es' = mset es \<Longrightarrow> removeBrick_indexes this es' = removeBrick_indexes this es"
proof -
  assume h: "mset es' = mset es"
  let ?f = "\<lambda>brickOrIndex. case brickOrIndex of
                   ElemBrick b \<Rightarrow> indexOf (p_bricks this) b
                 | ElemIndex i \<Rightarrow> i"
  have "mset (filter (\<lambda>index. index \<noteq> -1) (map ?f es')) = mset (filter (\<lambda>index. index \<noteq> -1) (map ?f es))"
    using h by simp
  then show ?thesis unfolding removeBrick_indexes_def by (rule sort_descending_mset)
qed

lemma sort_descending_strict: "distinct (sort_descending xs) \<Longrightarrow> sorted_wrt (>) (sort_descending xs)"
proof -
  assume "distinct (sort_descending xs)"
  then have "distinct (sort xs)" by (simp add: sort_descending_def)
  then have "sorted_wrt (<) (sort xs)" by (simp add: strict_sorted_iff)
  then show ?thesis by (simp add: sort_descending_def sorted_wrt_rev)
qed

lemma splice_before_last:
  "xs \<noteq> [] \<Longrightarrow> splice_array xs (-1) 0 bs = butlast xs @ bs @ [last xs]"
proof -
  assume ne: "xs \<noteq> []"
  have "drop (length (butlast xs)) (butlast xs @ [last xs]) = [last xs]" by simp
  then have d: "drop (length xs - 1) xs = [last xs]"
    using append_butlast_last_id [OF ne] by (simp only: length_butlast)
  have t: "take (length xs - 1) xs = butlast xs"
    by (simp add: butlast_conv_take)
  have neg: "(- 1 :: int) < 0" by simp
  have a: "nat (max (int (length xs) + - 1) 0) = length xs - 1"
    by simp
  have c: "nat (max (int (length xs) + - 1) 0 +
             min (max 0 0) (int (length xs) - max (int (length xs) + - 1) 0)) = length xs - 1"
    using ne by (cases xs) simp_all
  have "splice_array xs (-1) 0 bs = take (length xs - 1) xs @ bs @ drop (length xs - 1) xs"
    unfolding splice_array_def Let_def by (simp only: neg if_True a c)
  then show ?thesis by (simp only: d t)
qed

lemma addBrick_bricks:
  "p_bricks (addBrick this bs) =
     (if p_bricks this = [] then bs else butlast (p_bricks this) @ bs @ [last (p_bricks this)])"
  by (simp add: addBrick_def insertBrick_bricks splice_before_last) (simp add: splice_array_def)











lemma indexOf_not_found: "indexOf xs x = -1 \<longleftrightarrow> x \<notin> set xs"
proof (induction xs)
  case Nil
  then show ?case by simp
next
  case (Cons y ys)
  have "-1 \<le> indexOf ys x" for ys :: "'a list"
    by (induction ys) (simp_all add: Let_def)
  from this [of ys] Cons show ?case by (auto simp: Let_def)
qed

lemma set_removeBrick_indexes:
  "set (removeBrick_indexes this es) =
     {i. i \<noteq> -1 \<and> (ElemIndex i \<in> set es \<or>
          (\<exists>b. ElemBrick b \<in> set es \<and> b \<in> set (p_bricks this) \<and> indexOf (p_bricks this) b = i))}"
proof -
  have "i \<in> set (removeBrick_indexes this es) \<longleftrightarrow>
        i \<noteq> -1 \<and> (ElemIndex i \<in> set es \<or>
          (\<exists>b. ElemBrick b \<in> set es \<and> b \<in> set (p_bricks this) \<and> indexOf (p_bricks this) b = i))" for i
  proof
    assume "i \<in> set (removeBrick_indexes this es)"
    then obtain e where e: "e \<in> set es" "i \<noteq> -1"
      "i = (case e of ElemBrick b \<Rightarrow> indexOf (p_bricks this) b | ElemIndex j \<Rightarrow> j)"
      by (auto simp: removeBrick_indexes_def sort_descending_def)
    show "i \<noteq> -1 \<and> (ElemIndex i \<in> set es \<or>
          (\<exists>b. ElemBrick b \<in> set es \<and> b \<in> set (p_bricks this) \<and> indexOf (p_bricks this) b = i))"
    proof (cases e)
      case (ElemBrick b)
      with e have "indexOf (p_bricks this) b \<noteq> -1" by simp
      then have "b \<in> set (p_bricks this)" by (simp add: indexOf_not_found)
      with e ElemBrick show ?thesis by auto
    next
      case (ElemIndex j)
      with e show ?thesis by auto
    qed
  next
    assume h: "i \<noteq> -1 \<and> (ElemIndex i \<in> set es \<or>
          (\<exists>b. ElemBrick b \<in> set es \<and> b \<in> set (p_bricks this) \<and> indexOf (p_bricks this) b = i))"
    then consider "ElemIndex i \<in> set es" |
      b where "ElemBrick b \<in> set es" "indexOf (p_bricks this) b = i" by blast
    then show "i \<in> set (removeBrick_indexes this es)"
    proof cases
      case 1
      with h show ?thesis
        by (force simp: removeBrick_indexes_def sort_descending_def image_iff)
    next
      case 2
      with h show ?thesis
        by (force simp: removeBrick_indexes_def sort_descending_def image_iff)
    qed
  qed
  then show ?thesis by blast
qed

section \<open>The claims\<close>

text \<open>
  Claim C1 (the code breaks it): for a Pipe of extractable Bricks,
  \<open>Pipe.extract(p.serialize())\<close> should succeed and give a Pipe that serializes to the
  same data. The code calls \<open>pipe.add\<close>, a method that class Pipe does not have (its
  method is \<open>addBrick\<close>): whatever the Bricks and however they are serialized and
  extracted, \<open>Pipe.extract\<close> returns no Pipe, and on the serialized empty Pipe it throws a
  TypeError.
\<close>

theorem Pipe_extract_never_returns:
  "isl (Pipe_extract Brick_extract r heap (serialize Brick_serialize this))
   \<and> Pipe_extract Inr 1 (\<lambda>b. None) (serialize (\<lambda>b. b) (Pipe 0 (\<lambda>b. None))) = Inl TypeError"
  by (simp add: Pipe_extract_def serialize_def Pipe_method_def Pipe_def getTitle_def
      getDescription_def split: sum.splits)

text \<open>
  Claim C2 (the code breaks it): \<open>addBrick\<close> should place the given Bricks at the tail.
  It calls \<open>insertBrick\<close> with index -1, which \<open>splice\<close> reads as "before the last
  element": on a Pipe that holds Bricks, the given Bricks land before the last one. On
  the Pipe that holds Brick 10, \<open>addBrick\<close> of Brick 20 gives the sequence 20, 10.
\<close>

theorem addBrick_before_last:
  "p_bricks (addBrick this bs) =
     (if p_bricks this = [] then bs else butlast (p_bricks this) @ bs @ [last (p_bricks this)])
   \<and> p_bricks (addBrick (Pipe 0 (\<lambda>b. None)) [10]) = [10]
   \<and> p_bricks (addBrick (addBrick (Pipe 0 (\<lambda>b. None)) [10]) [20]) = [20, 10]"
  by (simp add: addBrick_bricks) (simp add: Pipe_def)

text \<open>
  Claim C3, as the spec states it, fails: \<open>removeBrick\<close> drops only the index -1 (what
  \<open>indexOf\<close> gives for a Brick that is not in the Pipe); any other index that is no
  position of the brick sequence makes it throw. The spec's own example, on the Pipe of
  the Bricks 10, 20, 30, throws a TypeError.
\<close>

theorem removeBrick_out_of_range_throws:
  "p_bricks (insertBrick (Pipe 0 (\<lambda>b. None)) 0 [10, 20, 30]) = [10, 20, 30]
   \<and> removeBrick (insertBrick (Pipe 0 (\<lambda>b. None)) 0 [10, 20, 30])
        [ElemIndex 99999, ElemBrick 20, ElemIndex (-1)] = Inl TypeError"
proof -
  let ?p = "insertBrick (Pipe 0 (\<lambda>b. None)) 0 [10, 20, 30]"
  have b: "p_bricks ?p = [10, 20, 30]"
    by (simp add: insertBrick_bricks splice_array_def Pipe_def)
  have "removeBrick_indexes ?p [ElemIndex 99999, ElemBrick 20, ElemIndex (-1)] = [99999, 1]"
    unfolding removeBrick_indexes_def sort_descending_def b by simp
  then show ?thesis
    by (simp add: removeBrick_def removeBrick_each_invalid b)
qed

text \<open>
  Claim C3, amended: when the indexes that remain after resolving the Brick references and
  dropping -1 are pairwise distinct positions of the brick sequence, \<open>removeBrick\<close> does
  not throw and removes exactly the Bricks at those positions, leaving the others in
  their order, whatever the order of the arguments. The remaining indexes are the indexes
  given, but -1, and the positions of the Bricks given that are in the Pipe: a Brick that
  is not in the Pipe, and the index -1, are dropped silently.
\<close>

theorem removeBrick_valid_positions:
  assumes "valid_positions this es"
  shows "(\<exists>this'. removeBrick this es = Inr this' \<and>
           p_bricks this' = nths (p_bricks this) {n. int n \<notin> set (removeBrick_indexes this es)})
         \<and> set (removeBrick_indexes this es) =
             {i. i \<noteq> -1 \<and> (ElemIndex i \<in> set es \<or>
                (\<exists>b. ElemBrick b \<in> set es \<and> b \<in> set (p_bricks this) \<and>
                     indexOf (p_bricks this) b = i))}
         \<and> (\<forall>es'. mset es' = mset es \<longrightarrow> removeBrick this es' = removeBrick this es)"
proof (intro conjI)
  have "sorted_wrt (>) (removeBrick_indexes this es)"
    using assms unfolding valid_positions_def removeBrick_indexes_def
    by (intro sort_descending_strict) simp
  moreover have "\<forall>i \<in> set (removeBrick_indexes this es). 0 \<le> i \<and> i < int (length (p_bricks this))"
    using assms by (simp add: valid_positions_def list_all_iff)
  ultimately show "\<exists>this'. removeBrick this es = Inr this' \<and>
           p_bricks this' = nths (p_bricks this) {n. int n \<notin> set (removeBrick_indexes this es)}"
    unfolding removeBrick_def by (rule removeBrick_forEach_descending)
  show "set (removeBrick_indexes this es) =
             {i. i \<noteq> -1 \<and> (ElemIndex i \<in> set es \<or>
                (\<exists>b. ElemBrick b \<in> set es \<and> b \<in> set (p_bricks this) \<and>
                     indexOf (p_bricks this) b = i))}"
    by (rule set_removeBrick_indexes)
  show "\<forall>es'. mset es' = mset es \<longrightarrow> removeBrick this es' = removeBrick this es"
  proof (intro allI impI)
    fix es' assume "mset es' = mset es"
    from removeBrick_indexes_mset [OF this, of this]
    show "removeBrick this es' = removeBrick this es" by (simp add: removeBrick_def)
  qed
qed

theorem removeBrick_valid_positions_witness:
  "valid_positions (insertBrick (Pipe 0 (\<lambda>b. None)) 0 [10, 20, 30])
     [ElemBrick 70, ElemBrick 20, ElemIndex (-1), ElemIndex 0]
   \<and> (\<exists>this'. removeBrick (insertBrick (Pipe 0 (\<lambda>b. None)) 0 [10, 20, 30])
         [ElemBrick 70, ElemBrick 20, ElemIndex (-1), ElemIndex 0] = Inr this'
        \<and> p_bricks this' = [30])"
proof -
  let ?p = "insertBrick (Pipe 0 (\<lambda>b. None)) 0 [10, 20, 30]"
  let ?es = "[ElemBrick 70, ElemBrick 20, ElemIndex (-1), ElemIndex 0]"
  have b: "p_bricks ?p = [10, 20, 30]"
    by (simp add: insertBrick_bricks splice_array_def Pipe_def)
  have i: "removeBrick_indexes ?p ?es = [1, 0]"
    unfolding removeBrick_indexes_def sort_descending_def b by simp
  have v: "valid_positions ?p ?es"
    by (simp add: valid_positions_def i b)
  have n: "nths [10, 20, 30 :: nat] {n. int n \<notin> set [1, 0]} = [30]"
    by (simp add: nths_Cons)
  from removeBrick_valid_positions [OF v, THEN conjunct1] v show ?thesis
    by (simp only: i b n simp_thms)
qed




text \<open>
  Claim C5 (the code breaks it): on a Pipe whose \<open>getView()\<close> was never called,
  \<open>insertBrick\<close> should leave the view unconstructed. Its guard \<open>this.getView() && ...\<close>
  calls \<open>getView()\<close>, which constructs the view: after any insertion of at least one
  Brick the view field holds a view; after the insertion of Brick 10 into a new Pipe it
  holds a view that has received the child view of Brick 10.
\<close>

theorem insertBrick_constructs_view:
  "p_view (insertBrick this index (b # bs)) \<noteq> None
   \<and> p_view (Pipe 0 (\<lambda>b. None)) = None
   \<and> p_view (insertBrick (Pipe 0 (\<lambda>b. None)) 0 [10])
       = Some \<lparr>calls = [AddSubview (BrickView 10)]\<rparr>"
proof -
  have "p_view (insertBrick this index (b # bs)) \<noteq> None"
  proof -
    let ?t = "this\<lparr>p_bricks := splice_array (p_bricks this) index 0 (b # bs)\<rparr>"
    obtain v where "p_view (insertBrick_each ?t b) = Some v"
      by (simp add: insertBrick_each_eq)
    from foldl_insertBrick_each_view [OF this, of bs]
    show ?thesis by (simp add: insertBrick_def)
  qed
  then show ?thesis
    by (simp add: insertBrick_view_fresh Pipe_def Brick_getView_def)
qed

text \<open>
  Claim C6, as the spec states it, fails: \<open>setValue\<close> compares the filtered value with
  the stored one by strict equality, and NaN is not strictly equal to itself. On a
  Setting with no callbacks and delegate 1, NaN validates, its filtered result is NaN at
  both calls, and both calls of \<open>setValue(NaN)\<close> notify the delegate.
\<close>

theorem setValue_NaN_notifies_twice:
  "validateValue (setDelegate (Setting ''shift'' empty_spec) (Some 1)) JNaN
   \<and> validateValue (fst (setValue (setDelegate (Setting ''shift'' empty_spec) (Some 1)) JNaN None)) JNaN
   \<and> filterValue ((setDelegate (Setting ''shift'' empty_spec) (Some 1))\<lparr>s_valid := True\<rparr>) JNaN = JNaN
   \<and> filterValue (fst (setValue (setDelegate (Setting ''shift'' empty_spec) (Some 1)) JNaN None)) JNaN = JNaN
   \<and> snd (setValue (setDelegate (Setting ''shift'' empty_spec) (Some 1)) JNaN None) = [SettingValueDidChange 1 ''shift'' JNaN]
   \<and> snd (setValue (fst (setValue (setDelegate (Setting ''shift'' empty_spec) (Some 1)) JNaN None)) JNaN None)
       = [SettingValueDidChange 1 ''shift'' JNaN]"
  by (simp add: setValue_def validateValue_def filterValue_def Setting_def setDelegate_def
      hasDelegate_def getDelegate_def or_null_def empty_spec_def Let_def)

text \<open>
  Claim C6, amended: when a value validates and its filtered value is strictly equal to
  the stored value, \<open>setValue\<close> stores nothing new and notifies nobody; and when
  \<open>setValue(v)\<close> is called twice in a row, \<open>v\<close> validates both times and the two
  filtered results are strictly equal (which no NaN is), the second call changes nothing
  and notifies nobody, so that the two calls notify the delegate at most once, on the
  first call. The delegate's handler is external: it is taken not to change the Setting
  between the two calls.
\<close>

theorem setValue_twice_notifies_once:
  "(validateValue s v \<and> strict_eq (getValue s) (filterValue (s\<lparr>s_valid := True\<rparr>) v) \<longrightarrow>
      setValue s v sender = (s\<lparr>s_valid := True\<rparr>, []))
   \<and> (validateValue s v \<and> validateValue (fst (setValue s v sender)) v
       \<and> strict_eq (filterValue (s\<lparr>s_valid := True\<rparr>) v) (filterValue (fst (setValue s v sender)) v) \<longrightarrow>
        setValue (fst (setValue s v sender)) v sender' = (fst (setValue s v sender), [])
        \<and> length (snd (setValue s v sender) @ snd (setValue (fst (setValue s v sender)) v sender')) \<le> 1)"
proof (intro conjI impI)
  assume "validateValue s v \<and> strict_eq (getValue s) (filterValue (s\<lparr>s_valid := True\<rparr>) v)"
  then show "setValue s v sender = (s\<lparr>s_valid := True\<rparr>, [])"
    by (simp add: setValue_unchanged getValue_def)
next
  let ?s1 = "fst (setValue s v sender)"
  assume h: "validateValue s v \<and> validateValue ?s1 v
       \<and> strict_eq (filterValue (s\<lparr>s_valid := True\<rparr>) v) (filterValue ?s1 v)"
  have flag: "?s1\<lparr>s_valid := True\<rparr> = ?s1"
    using h by (simp add: setValue_valid_fixes_flag)
  have "strict_eq (s_value ?s1) (filterValue (?s1\<lparr>s_valid := True\<rparr>) v)"
    using h by (simp add: setValue_valid_value flag)
  with h have "setValue ?s1 v sender' = (?s1\<lparr>s_valid := True\<rparr>, [])"
    by (intro setValue_unchanged) simp_all
  then show second: "setValue ?s1 v sender' = (?s1, [])"
    by (simp add: flag)
  show "length (snd (setValue s v sender) @ snd (setValue ?s1 v sender')) \<le> 1"
    using setValue_events_le_1 [of s v sender] by (simp add: second)
qed

theorem setValue_twice_notifies_once_witness:
  "validateValue (setDelegate (Setting ''shift'' \<lparr>spec_value = JNum 3,
        spec_validateValue = Some (\<lambda>this rawValue. typeof rawValue = ''number''),
        spec_filterValue = None, spec_randomizeValue = None\<rparr>) (Some 1)) (JNum 5)
   \<and> validateValue (fst (setValue (setDelegate (Setting ''shift'' \<lparr>spec_value = JNum 3,
        spec_validateValue = Some (\<lambda>this rawValue. typeof rawValue = ''number''),
        spec_filterValue = None, spec_randomizeValue = None\<rparr>) (Some 1)) (JNum 5) None)) (JNum 5)
   \<and> strict_eq (filterValue ((setDelegate (Setting ''shift'' \<lparr>spec_value = JNum 3,
        spec_validateValue = Some (\<lambda>this rawValue. typeof rawValue = ''number''),
        spec_filterValue = None, spec_randomizeValue = None\<rparr>) (Some 1))\<lparr>s_valid := True\<rparr>) (JNum 5))
        (filterValue (fst (setValue (setDelegate (Setting ''shift'' \<lparr>spec_value = JNum 3,
        spec_validateValue = Some (\<lambda>this rawValue. typeof rawValue = ''number''),
        spec_filterValue = None, spec_randomizeValue = None\<rparr>) (Some 1)) (JNum 5) None)) (JNum 5))
   \<and> snd (setValue (setDelegate (Setting ''shift'' \<lparr>spec_value = JNum 3,
        spec_validateValue = Some (\<lambda>this rawValue. typeof rawValue = ''number''),
        spec_filterValue = None, spec_randomizeValue = None\<rparr>) (Some 1)) (JNum 5) None) = [SettingValueDidChange 1 ''shift'' (JNum 5)]
   \<and> setValue (fst (setValue (setDelegate (Setting ''shift'' \<lparr>spec_value = JNum 3,
        spec_validateValue = Some (\<lambda>this rawValue. typeof rawValue = ''number''),
        spec_filterValue = None, spec_randomizeValue = None\<rparr>) (Some 1)) (JNum 5) None)) (JNum 5) None
       = (fst (setValue (setDelegate (Setting ''shift'' \<lparr>spec_value = JNum 3,
        spec_validateValue = Some (\<lambda>this rawValue. typeof rawValue = ''number''),
        spec_filterValue = None, spec_randomizeValue = None\<rparr>) (Some 1)) (JNum 5) None), [])"
proof -
  let ?s = "(setDelegate (Setting ''shift'' \<lparr>spec_value = JNum 3,
        spec_validateValue = Some (\<lambda>this rawValue. typeof rawValue = ''number''),
        spec_filterValue = None, spec_randomizeValue = None\<rparr>) (Some 1))"
  have s1: "setValue ?s (JNum 5) None =
       (?s\<lparr>s_value := JNum 5\<rparr>, [SettingValueDidChange 1 ''shift'' (JNum 5)])"
    by (simp add: setValue_def validateValue_def filterValue_def Setting_def setDelegate_def
        hasDelegate_def getDelegate_def or_null_def this_fields_def Let_def)
  have h: "validateValue ?s (JNum 5) \<and> validateValue (fst (setValue ?s (JNum 5) None)) (JNum 5)
     \<and> strict_eq (filterValue (?s\<lparr>s_valid := True\<rparr>) (JNum 5))
          (filterValue (fst (setValue ?s (JNum 5) None)) (JNum 5))"
    unfolding s1
    by (simp add: validateValue_def filterValue_def Setting_def setDelegate_def this_fields_def)
  from setValue_twice_notifies_once [of ?s "JNum 5" None None, THEN conjunct2] h
  have "setValue (fst (setValue ?s (JNum 5) None)) (JNum 5) None
       = (fst (setValue ?s (JNum 5) None), [])"
    by blast
  with h s1 show ?thesis by simp
qed

text \<open>
  Claim C7: with the delegate \<open>d\<close> as sender, \<open>setValue\<close> makes no call to the
  delegate, also when the valid, filtered value differs from the stored one and is
  stored. Every call that \<open>setValue\<close> makes goes to the delegate that is set, is made
  only when that delegate is not the sender, and passes the value just stored.
\<close>

theorem setValue_sender_suppressed:
  "(getDelegate s = Some d \<longrightarrow> snd (setValue s raw (Some d)) = [])
   \<and> (\<forall>e \<in> set (snd (setValue s raw sender)).
        hasDelegate s \<and> getDelegate s \<noteq> sender
        \<and> (\<exists>d'. getDelegate s = Some d' \<and>
             e = SettingValueDidChange d' (getName s) (getValue (fst (setValue s raw sender)))))
   \<and> (getDelegate s = Some d \<and> validateValue s raw
        \<and> \<not> strict_eq (getValue s) (filterValue (s\<lparr>s_valid := True\<rparr>) raw) \<longrightarrow>
        getValue (fst (setValue s raw (Some d))) = filterValue (s\<lparr>s_valid := True\<rparr>) raw)"
  by (auto simp: setValue_def Let_def getDelegate_def hasDelegate_def getName_def getValue_def
      split: option.splits)

theorem setValue_sender_suppressed_witness:
  "getDelegate (setDelegate (Setting ''shift'' \<lparr>spec_value = JNum 3,
        spec_validateValue = Some (\<lambda>this rawValue. typeof rawValue = ''number''),
        spec_filterValue = None, spec_randomizeValue = None\<rparr>) (Some 1)) = Some 1
   \<and> validateValue (setDelegate (Setting ''shift'' \<lparr>spec_value = JNum 3,
        spec_validateValue = Some (\<lambda>this rawValue. typeof rawValue = ''number''),
        spec_filterValue = None, spec_randomizeValue = None\<rparr>) (Some 1)) (JNum 5)
   \<and> \<not> strict_eq (getValue (setDelegate (Setting ''shift'' \<lparr>spec_value = JNum 3,
        spec_validateValue = Some (\<lambda>this rawValue. typeof rawValue = ''number''),
        spec_filterValue = None, spec_randomizeValue = None\<rparr>) (Some 1))) (filterValue ((setDelegate (Setting ''shift'' \<lparr>spec_value = JNum 3,
        spec_validateValue = Some (\<lambda>this rawValue. typeof rawValue = ''number''),
        spec_filterValue = None, spec_randomizeValue = None\<rparr>) (Some 1))\<lparr>s_valid := True\<rparr>) (JNum 5))
   \<and> snd (setValue (setDelegate (Setting ''shift'' \<lparr>spec_value = JNum 3,
        spec_validateValue = Some (\<lambda>this rawValue. typeof rawValue = ''number''),
        spec_filterValue = None, spec_randomizeValue = None\<rparr>) (Some 1)) (JNum 5) (Some 1)) = []
   \<and> getValue (fst (setValue (setDelegate (Setting ''shift'' \<lparr>spec_value = JNum 3,
        spec_validateValue = Some (\<lambda>this rawValue. typeof rawValue = ''number''),
        spec_filterValue = None, spec_randomizeValue = None\<rparr>) (Some 1)) (JNum 5) (Some 1))) = JNum 5
   \<and> snd (setValue (setDelegate (Setting ''shift'' \<lparr>spec_value = JNum 3,
        spec_validateValue = Some (\<lambda>this rawValue. typeof rawValue = ''number''),
        spec_filterValue = None, spec_randomizeValue = None\<rparr>) (Some 1)) (JNum 5) None) = [SettingValueDidChange 1 ''shift'' (JNum 5)]"
proof -
  let ?s = "(setDelegate (Setting ''shift'' \<lparr>spec_value = JNum 3,
        spec_validateValue = Some (\<lambda>this rawValue. typeof rawValue = ''number''),
        spec_filterValue = None, spec_randomizeValue = None\<rparr>) (Some 1))"
  have h: "getDelegate ?s = Some 1 \<and> validateValue ?s (JNum 5)
     \<and> \<not> strict_eq (getValue ?s) (filterValue (?s\<lparr>s_valid := True\<rparr>) (JNum 5))"
    by (simp add: validateValue_def filterValue_def Setting_def setDelegate_def this_fields_def
        getDelegate_def getValue_def or_null_def)
  have f: "filterValue (?s\<lparr>s_valid := True\<rparr>) (JNum 5) = JNum 5"
    by (simp add: filterValue_def Setting_def setDelegate_def)
  have n: "snd (setValue ?s (JNum 5) None) = [SettingValueDidChange 1 ''shift'' (JNum 5)]"
    by (simp add: setValue_def validateValue_def filterValue_def Setting_def setDelegate_def
        hasDelegate_def getDelegate_def or_null_def this_fields_def Let_def)
  from setValue_sender_suppressed [of ?s 1 "JNum 5" None] h
  have "snd (setValue ?s (JNum 5) (Some 1)) = []
      \<and> getValue (fst (setValue ?s (JNum 5) (Some 1))) = filterValue (?s\<lparr>s_valid := True\<rparr>) (JNum 5)"
    by blast
  with h n show ?thesis by (simp only: f simp_thms)
qed

text \<open>
  Claim C8: on a raw value that fails validation \<open>setValue\<close> returns (it has no throwing
  path), with the raw value stored as it is, \<open>valid\<close> false, no call to the delegate and
  the filter not applied. And after any sequence of calls on a constructed Setting,
  whenever \<open>isValid()\<close> is false, \<open>getValue()\<close> is the raw value that reached
  \<open>setValue\<close> last.
\<close>

theorem setValue_invalid_keeps_raw:
  "(\<not> validateValue s raw \<longrightarrow>
      setValue s raw sender = (s\<lparr>s_valid := False, s_value := raw\<rparr>, []))
   \<and> (apply_ops (Setting n spec, None) ops = (s', last_raw) \<and> \<not> isValid s' \<longrightarrow>
        last_raw = Some (getValue s'))"
proof -
  have "\<not> s_valid (Setting n spec) \<longrightarrow> None = Some (s_value (Setting n spec))"
    by (simp add: Setting_def)
  from apply_ops_invariant [OF this]
  show ?thesis by (auto simp: setValue_invalid isValid_def getValue_def)
qed

theorem setValue_invalid_keeps_raw_witness:
  "\<not> validateValue (Setting ''shift'' \<lparr>spec_value = JNum 3,
        spec_validateValue = Some (\<lambda>this rawValue. typeof rawValue = ''number''),
        spec_filterValue = None, spec_randomizeValue = None\<rparr>) (JStr ''abc'')
   \<and> setValue (Setting ''shift'' \<lparr>spec_value = JNum 3,
        spec_validateValue = Some (\<lambda>this rawValue. typeof rawValue = ''number''),
        spec_filterValue = None, spec_randomizeValue = None\<rparr>) (JStr ''abc'') None
       = ((Setting ''shift'' \<lparr>spec_value = JNum 3,
        spec_validateValue = Some (\<lambda>this rawValue. typeof rawValue = ''number''),
        spec_filterValue = None, spec_randomizeValue = None\<rparr>)\<lparr>s_valid := False, s_value := JStr ''abc''\<rparr>, [])
   \<and> \<not> isValid (fst (apply_ops (Setting ''shift'' \<lparr>spec_value = JNum 3,
        spec_validateValue = Some (\<lambda>this rawValue. typeof rawValue = ''number''),
        spec_filterValue = None, spec_randomizeValue = None\<rparr>, None)
                        [SetValue (JNum 5) None, SetValue (JStr ''abc'') None]))
   \<and> getValue (fst (apply_ops (Setting ''shift'' \<lparr>spec_value = JNum 3,
        spec_validateValue = Some (\<lambda>this rawValue. typeof rawValue = ''number''),
        spec_filterValue = None, spec_randomizeValue = None\<rparr>, None)
                        [SetValue (JNum 5) None, SetValue (JStr ''abc'') None])) = JStr ''abc''"
proof -
  let ?s = "Setting ''shift'' \<lparr>spec_value = JNum 3,
        spec_validateValue = Some (\<lambda>this rawValue. typeof rawValue = ''number''),
        spec_filterValue = None, spec_randomizeValue = None\<rparr>"
  let ?ops = "[SetValue (JNum 5) None, SetValue (JStr ''abc'') None]"
  have h: "\<not> validateValue ?s (JStr ''abc'')"
    by (simp add: validateValue_def Setting_def)
  have r: "snd (apply_ops (?s, None) ?ops) = Some (JStr ''abc'')"
    by simp
  have i: "\<not> isValid (fst (apply_ops (?s, None) ?ops))"
    by (simp add: isValid_def setValue_def validateValue_def filterValue_def Setting_def
        hasDelegate_def getDelegate_def or_null_def this_fields_def Let_def)
  from setValue_invalid_keeps_raw
         [of ?s "JStr ''abc''" None "''shift''" "\<lparr>spec_value = JNum 3,
        spec_validateValue = Some (\<lambda>this rawValue. typeof rawValue = ''number''),
        spec_filterValue = None, spec_randomizeValue = None\<rparr>" ?ops
             "fst (apply_ops (?s, None) ?ops)" "snd (apply_ops (?s, None) ?ops)"] h i
  have "setValue ?s (JStr ''abc'') None = (?s\<lparr>s_valid := False, s_value := JStr ''abc''\<rparr>, [])
      \<and> snd (apply_ops (?s, None) ?ops) = Some (getValue (fst (apply_ops (?s, None) ?ops)))"
    by simp
  with h i r show ?thesis by (simp only: simp_thms option.inject)
qed

text \<open>
  Claim C9: \<open>serializeValue()\<close> throws if and only if the type of the current value is
  none of boolean, number and string; when it does not throw it returns the current
  value; in both cases it leaves the Setting as it was.
\<close>

theorem serializeValue_throws_iff:
  "(isl (fst (serializeValue s)) \<longleftrightarrow>
      typeof (getValue s) \<notin> {''boolean'', ''number'', ''string''})
   \<and> (\<not> isl (fst (serializeValue s)) \<longrightarrow> fst (serializeValue s) = Inr (getValue s))
   \<and> snd (serializeValue s) = s"
  by (simp add: serializeValue_def getValue_def Let_def)

theorem serializeValue_throws_iff_witness:
  "\<not> isl (fst (serializeValue (Setting ''shift'' \<lparr>spec_value = JNum 3,
        spec_validateValue = Some (\<lambda>this rawValue. typeof rawValue = ''number''),
        spec_filterValue = None, spec_randomizeValue = None\<rparr>)))
   \<and> fst (serializeValue (Setting ''shift'' \<lparr>spec_value = JNum 3,
        spec_validateValue = Some (\<lambda>this rawValue. typeof rawValue = ''number''),
        spec_filterValue = None, spec_randomizeValue = None\<rparr>)) = Inr (JNum 3)
   \<and> isl (fst (serializeValue (Setting ''shift'' empty_spec)))"
proof -
  have v: "getValue (Setting ''shift'' \<lparr>spec_value = JNum 3,
        spec_validateValue = Some (\<lambda>this rawValue. typeof rawValue = ''number''),
        spec_filterValue = None, spec_randomizeValue = None\<rparr>) = JNum 3"
    by (simp add: getValue_def Setting_def or_null_def)
  have w: "getValue (Setting ''shift'' empty_spec) = JNull"
    by (simp add: getValue_def Setting_def or_null_def empty_spec_def)
  from serializeValue_throws_iff [of "Setting ''shift'' \<lparr>spec_value = JNum 3,
        spec_validateValue = Some (\<lambda>this rawValue. typeof rawValue = ''number''),
        spec_filterValue = None, spec_randomizeValue = None\<rparr>"]
       serializeValue_throws_iff [of "Setting ''shift'' empty_spec"]
  show ?thesis by (simp add: v w)
qed

text \<open>
  Claim C10: after construction the value is \<open>spec.value\<close> when that is truthy and null
  otherwise (so the defaults false, 0 and the empty string become null), \<open>valid\<close> is
  true whatever the validation callback would say of the value (the constructor does not
  call it), and the delegate is null.
\<close>

theorem Setting_constructor_state:
  "getValue (Setting n spec) = (if truthy (spec_value spec) then spec_value spec else JNull)
   \<and> getValue (Setting n (spec\<lparr>spec_value := JBool False\<rparr>)) = JNull
   \<and> getValue (Setting n (spec\<lparr>spec_value := JNum 0\<rparr>)) = JNull
   \<and> getValue (Setting n (spec\<lparr>spec_value := JStr []\<rparr>)) = JNull
   \<and> isValid (Setting n spec)
   \<and> isValid (Setting n (spec\<lparr>spec_validateValue := Some (\<lambda>this rawValue. False)\<rparr>))
   \<and> getDelegate (Setting n spec) = None
   \<and> getName (Setting n spec) = n"
  by (simp add: Setting_def or_null_def getValue_def isValid_def getDelegate_def getName_def)

end
